theory Spec2Isabelle
  imports Complex_Main
begin

section \<open>GeoPlot: from a state trajectory to time-series GeoJSON\<close>

text \<open>
  This theory embeds \<^verbatim>\<open>src/geoplot.py\<close>: the helper \<^verbatim>\<open>read_var\<close> and the method
  \<^verbatim>\<open>GeoPlot.render\<close>. Python exceptions are values of the type \<open>error\<close>; the two files
  that \<^verbatim>\<open>render\<close> writes are entries of an explicit store from path names to contents.

  Abstractions, all stated here once:
  \<^item> numbers read from the state (Python floats and ints) are \<open>real\<close>; the code does no
    arithmetic on them;
  \<^item> a point in time and a duration are what pandas stores: a signed 64-bit count of
    nanoseconds (ticks), as an \<open>int\<close> with the bounds checked; \<^verbatim>\<open>pd.Timestamp.utcnow()\<close> is
    the parameter \<open>start_time\<close>; \<^verbatim>\<open>isoformat()\<close>, an injective rendering of the ticks, is
    left out;
  \<^item> a Python float is a \<open>real\<close>: the rounding of floating-point arithmetic is not
    modelled, and what is proved of exact spacing is stated for integer steps, where
    Python's arithmetic is exact;
  \<^item> the configuration is a record, so its three keys are always present;
  \<^item> the fixed HTML template is opaque: a written HTML document is the record of the five
    values substituted into it;
  \<^item> opening a file never fails.
\<close>

subsection \<open>Errors\<close>

text \<open>
  \<open>IndexError\<close>, \<open>TypeError\<close> and \<open>ValueError\<close> are the Python exceptions of those names;
  \<open>OutOfBoundsTimedelta\<close> and \<open>OutOfBoundsDatetime\<close> are the exceptions of pandas (an
  \<^verbatim>\<open>OverflowError\<close> in its older versions). \<open>PathNotFound\<close> is the failure of the path
  lookup. \<open>NotArrayData\<close> is no exception of the code: it marks the one place where the
  model stops, a path that resolves to a mapping instead of array data (see \<open>np_tolist\<close>).
\<close>

datatype error =
  PathNotFound | IndexError | TypeError | ValueError
| OutOfBoundsTimedelta | OutOfBoundsDatetime | NotArrayData

subsection \<open>States\<close>

text \<open>
  Array data as \<^verbatim>\<open>tolist()\<close> returns it: a number or a list of such values. A state is a
  nested mapping with string keys (an association list, looked up with \<open>map_of\<close>) whose
  leaves hold array data.
\<close>

datatype arr = Num real | Arr "arr list"

datatype state = Leaf arr | Dict "(string \<times> state) list"

subsection \<open>The path resolver\<close>

text \<open>
  \<^verbatim>\<open>re.split("/", var)\<close>: the pieces of \<open>var\<close> between the slashes, empty pieces kept;
  a string without a slash (the empty string too) gives one piece. \<open>acc\<close> holds the
  current piece, reversed.
\<close>

fun split_acc :: "string \<Rightarrow> string \<Rightarrow> string list" where
  "split_acc acc [] = [rev acc]"
| "split_acc acc (c # cs) =
     (if c = CHR ''/'' then rev acc # split_acc [] cs else split_acc (c # acc) cs)"

definition re_split :: "string \<Rightarrow> string list" where
  "re_split var = split_acc [] var"

text \<open>
  The segments joined again with a slash between neighbours; \<open>re_split\<close> is characterised
  below as the inverse of this function on lists of slash-free segments.
\<close>

fun join_slash :: "string list \<Rightarrow> string" where
  "join_slash [] = []"
| "join_slash [s] = s"
| "join_slash (s # t # ss) = s @ CHR ''/'' # join_slash (t # ss)"

text \<open>
  Modelled from the spec: \<^verbatim>\<open>get_by_path\<close> of \<^verbatim>\<open>agent_torch.core.helpers\<close>, which
  \<^verbatim>\<open>geoplot.py\<close> imports and which is not among the sources. The spec: resolution walks the
  container performing one key lookup per segment, left to right, returning the value found
  at the final segment; it fails with \<open>PathNotFound\<close> if a segment is missing or an
  intermediate value is not a lookup-capable container.
\<close>

fun get_by_path :: "state \<Rightarrow> string list \<Rightarrow> error + state" where
  "get_by_path st [] = Inr st"
| "get_by_path (Dict kvs) (k # ks) =
     (case map_of kvs k of None \<Rightarrow> Inl PathNotFound | Some v \<Rightarrow> get_by_path v ks)"
| "get_by_path (Leaf a) (k # ks) = Inl PathNotFound"

definition read_var :: "state \<Rightarrow> string \<Rightarrow> error + state" where
  "read_var st var = get_by_path st (re_split var)"

subsection \<open>The numpy conversions\<close>

text \<open>
  \<^verbatim>\<open>np.array(x)\<close> accepts nested sequences of one shape only and raises \<^verbatim>\<open>ValueError\<close> on
  a ragged one (numpy 1.24 and later). \<open>np_shape\<close> is the shape, \<open>None\<close> for a ragged value.
  A mapping is not array data: numpy wraps it into an object array without raising, and
  what the code does with that is not modelled. The model covers array-valued paths only
  and returns \<open>NotArrayData\<close> for a path that ends at a mapping.
\<close>

fun np_shape :: "arr \<Rightarrow> nat list option" where
  "np_shape (Num x) = Some []"
| "np_shape (Arr []) = Some [0]"
| "np_shape (Arr (a # as)) =
     (case np_shape a of
        None \<Rightarrow> None
      | Some sh \<Rightarrow> if (\<forall>b \<in> set as. np_shape b = Some sh)
                    then Some (Suc (length as) # sh) else None)"

fun flatten :: "arr \<Rightarrow> real list" where
  "flatten (Num x) = [x]"
| "flatten (Arr xs) = concat (map flatten xs)"

text \<open>\<^verbatim>\<open>np.array(x).tolist()\<close> and \<^verbatim>\<open>np.array(x).flatten().tolist()\<close>.\<close>

definition np_tolist :: "state \<Rightarrow> error + arr" where
  "np_tolist x =
     (case x of
        Dict kvs \<Rightarrow> Inl NotArrayData
      | Leaf a \<Rightarrow> if np_shape a = None then Inl ValueError else Inr a)"

definition np_flatten_tolist :: "state \<Rightarrow> error + real list" where
  "np_flatten_tolist x =
     (case x of
        Dict kvs \<Rightarrow> Inl NotArrayData
      | Leaf a \<Rightarrow> if np_shape a = None then Inl ValueError else Inr (flatten a))"

subsection \<open>Python subscripts\<close>

text \<open>
  \<^verbatim>\<open>coord[k]\<close> on array data: a number is not subscriptable, a list raises
  \<^verbatim>\<open>IndexError\<close> out of range. \<^verbatim>\<open>value_list[i]\<close> reads a Python list.
\<close>

definition getitem :: "arr \<Rightarrow> nat \<Rightarrow> error + arr" where
  "getitem a k =
     (case a of
        Num x \<Rightarrow> Inl TypeError
      | Arr xs \<Rightarrow> if k < length xs then Inr (xs ! k) else Inl IndexError)"

definition list_getitem :: "'a list \<Rightarrow> nat \<Rightarrow> error + 'a" where
  "list_getitem xs k = (if k < length xs then Inr (xs ! k) else Inl IndexError)"

subsection \<open>Timestamps and durations of pandas\<close>

text \<open>
  \<^verbatim>\<open>step_time\<close> is any Python number: an int or a float.
\<close>

datatype number = PyInt int | PyFloat real

text \<open>Python's \<^verbatim>\<open>int(x)\<close> on a float cuts the fraction off, towards zero.\<close>

definition py_int :: "real \<Rightarrow> int" where
  "py_int x = (if 0 \<le> x then \<lfloor>x\<rfloor> else \<lceil>x\<rceil>)"

text \<open>
  \<^verbatim>\<open>i * self.step_time\<close>, then what \<^verbatim>\<open>pd.Timedelta(seconds=...)\<close> makes of it (pandas 1.4 and
  later): \<^verbatim>\<open>int(seconds * 1_000_000_000)\<close> ticks. On ints both products are exact.
\<close>

definition seconds_to_ticks :: "nat \<Rightarrow> number \<Rightarrow> int" where
  "seconds_to_ticks i step =
     (case step of
        PyInt k \<Rightarrow> int i * k * 1000000000
      | PyFloat x \<Rightarrow> py_int (real i * x * 1000000000))"

text \<open>
  A timestamp and a duration hold their ticks in 64 bits; the least 64-bit value is
  reserved (it reads as \<^verbatim>\<open>NaT\<close>, not a time) and counts as out of bounds here.
\<close>

definition int64_max :: int where
  "int64_max = 9223372036854775807"

definition in_bounds :: "int \<Rightarrow> bool" where
  "in_bounds v \<longleftrightarrow> - int64_max \<le> v \<and> v \<le> int64_max"

definition timedelta :: "nat \<Rightarrow> number \<Rightarrow> error + int" where
  "timedelta i step =
     (if in_bounds (seconds_to_ticks i step) then Inr (seconds_to_ticks i step)
      else Inl OutOfBoundsTimedelta)"

text \<open>\<^verbatim>\<open>start_time + delta\<close>.\<close>

definition timestamp_add :: "int \<Rightarrow> int \<Rightarrow> error + int" where
  "timestamp_add t d = (if in_bounds (t + d) then Inr (t + d) else Inl OutOfBoundsDatetime)"

subsection \<open>The object and its outputs\<close>

record sim_config =
  name :: string
  num_episodes :: int
  num_steps_per_episode :: int

record geoplot =
  config :: sim_config
  cesium_token :: string
  step_time :: number
  entity_position :: string
  entity_property :: string
  visualization_type :: string

text \<open>
  A GeoJSON point feature: \<open>coordinates\<close> is \<^verbatim>\<open>geometry.coordinates\<close>, \<open>val\<close> is
  \<^verbatim>\<open>properties.value\<close>, \<open>time\<close> is \<^verbatim>\<open>properties.time\<close>, in ticks.
\<close>

record feature =
  coordinates :: "arr list"
  val :: real
  time :: int

datatype feature_collection = FeatureCollection (features: "feature list")

record html_doc =
  accessToken :: string
  startTime :: int
  stopTime :: int
  data :: "feature_collection list"
  visualType :: string

text \<open>
  What a path of the file system holds: \<open>Truncated\<close> is a file opened for writing and not
  written to yet.
\<close>

datatype content = Truncated | GeoJSON "feature_collection list" | Html html_doc

type_synonym files = "string \<rightharpoonup> content"

subsection \<open>render, step by step\<close>

text \<open>
  The first loop, lines 253 to 259, over the episodes it is given: the last state of the
  episode, the coordinates overwritten, the flattened feature values appended.
\<close>

fun read_episodes ::
  "string \<Rightarrow> string \<Rightarrow> state list list \<Rightarrow> arr \<times> real list list \<Rightarrow> error + arr \<times> real list list"
where
  "read_episodes pos prop [] (coords, vals) = Inr (coords, vals)"
| "read_episodes pos prop (ep # eps) (coords, vals) =
     (if ep = [] then Inl IndexError
      else case read_var (last ep) pos of Inl e \<Rightarrow> Inl e | Inr c \<Rightarrow>
          (case np_tolist c of Inl e \<Rightarrow> Inl e | Inr coords' \<Rightarrow>
          (case read_var (last ep) prop of Inl e \<Rightarrow> Inl e | Inr f \<Rightarrow>
          (case np_flatten_tolist f of Inl e \<Rightarrow> Inl e | Inr vs \<Rightarrow>
             read_episodes pos prop eps (coords', vals @ [vs])))))"

text \<open>
  The loop runs over \<^verbatim>\<open>range(0, len(state_trajectory) - 1)\<close>: every episode but the last
  one. It starts from \<^verbatim>\<open>coords, values = [], []\<close>.
\<close>

definition read_trajectory :: "geoplot \<Rightarrow> state list list \<Rightarrow> error + arr \<times> real list list" where
  "read_trajectory g state_trajectory =
     read_episodes (entity_position g) (entity_property g)
       (take (length state_trajectory - 1) state_trajectory) (Arr [], [])"

text \<open>
  Lines 262 to 269, the list comprehension over the indices of the range: for each \<open>i\<close> the
  duration is built and added to the start time; the first one out of bounds raises. The
  range is empty when the product is not positive.
\<close>

fun timestamps_loop :: "int \<Rightarrow> number \<Rightarrow> nat list \<Rightarrow> error + int list" where
  "timestamps_loop start_time step [] = Inr []"
| "timestamps_loop start_time step (i # rest) =
     (case timedelta i step of Inl e \<Rightarrow> Inl e | Inr d \<Rightarrow>
     (case timestamp_add start_time d of Inl e \<Rightarrow> Inl e | Inr t \<Rightarrow>
     (case timestamps_loop start_time step rest of Inl e \<Rightarrow> Inl e | Inr ts \<Rightarrow>
        Inr (t # ts))))"

definition timestamps :: "geoplot \<Rightarrow> int \<Rightarrow> error + int list" where
  "timestamps g start_time =
     timestamps_loop start_time (step_time g)
       [0 ..< nat (num_episodes (config g) * num_steps_per_episode (config g))]"

text \<open>
  Lines 275 to 288, the inner loop for entity \<open>i\<close> over \<^verbatim>\<open>zip(timestamps, values)\<close>. The
  dictionary display evaluates \<^verbatim>\<open>coord[1]\<close>, \<^verbatim>\<open>coord[0]\<close> and \<^verbatim>\<open>value_list[i]\<close> in this order.
\<close>

definition make_feature :: "nat \<Rightarrow> arr \<Rightarrow> int \<Rightarrow> real list \<Rightarrow> error + feature" where
  "make_feature i coord t value_list =
     (case getitem coord 1 of Inl e \<Rightarrow> Inl e | Inr lon \<Rightarrow>
     (case getitem coord 0 of Inl e \<Rightarrow> Inl e | Inr lat \<Rightarrow>
     (case list_getitem value_list i of Inl e \<Rightarrow> Inl e | Inr v \<Rightarrow>
        Inr \<lparr>coordinates = [lon, lat], val = v, time = t\<rparr>)))"

fun features_loop :: "nat \<Rightarrow> arr \<Rightarrow> (int \<times> real list) list \<Rightarrow> error + feature list" where
  "features_loop i coord [] = Inr []"
| "features_loop i coord ((t, value_list) # rest) =
     (case make_feature i coord t value_list of Inl e \<Rightarrow> Inl e | Inr f \<Rightarrow>
     (case features_loop i coord rest of Inl e \<Rightarrow> Inl e | Inr fs \<Rightarrow> Inr (f # fs)))"

text \<open>Lines 273 to 289, the outer loop over \<^verbatim>\<open>enumerate(coords)\<close>, from index \<open>i\<close> on.\<close>

fun geojsons_loop ::
  "nat \<Rightarrow> arr list \<Rightarrow> (int \<times> real list) list \<Rightarrow> error + feature_collection list"
where
  "geojsons_loop i [] tv = Inr []"
| "geojsons_loop i (coord # rest) tv =
     (case features_loop i coord tv of Inl e \<Rightarrow> Inl e | Inr fs \<Rightarrow>
     (case geojsons_loop (Suc i) rest tv of Inl e \<Rightarrow> Inl e | Inr gs \<Rightarrow>
        Inr (FeatureCollection fs # gs)))"

text \<open>A number cannot be enumerated.\<close>

definition encode :: "arr \<Rightarrow> int list \<Rightarrow> real list list \<Rightarrow> error + feature_collection list" where
  "encode coords ts vals =
     (case coords of
        Num x \<Rightarrow> Inl TypeError
      | Arr cs \<Rightarrow> geojsons_loop 0 cs (zip ts vals))"

text \<open>
  The two output paths, line 250, and the whole method: the first loop, the timeline, the
  encoding, the two writes. Nothing is written before \<open>geojsons\<close> is complete. Then the GeoJSON file is written (line 292), the HTML file is
  opened (line 298), and only then
  \<^verbatim>\<open>timestamps[0]\<close> and \<^verbatim>\<open>timestamps[-1]\<close> are read (lines 303 and 304), which raises
  \<^verbatim>\<open>IndexError\<close> on an empty list.
\<close>

definition geodata_path :: "geoplot \<Rightarrow> string" where
  "geodata_path g = name (config g) @ ''.geojson''"

definition geoplot_path :: "geoplot \<Rightarrow> string" where
  "geoplot_path g = name (config g) @ ''.html''"

definition render ::
  "geoplot \<Rightarrow> int \<Rightarrow> state list list \<Rightarrow> files \<Rightarrow> (error + unit) \<times> files"
where
  "render g start_time state_trajectory fs =
     (case read_trajectory g state_trajectory of
        Inl e \<Rightarrow> (Inl e, fs)
      | Inr (coords, vals) \<Rightarrow>
         (case timestamps g start_time of
            Inl e \<Rightarrow> (Inl e, fs)
          | Inr ts \<Rightarrow>
             (case encode coords ts vals of
                Inl e \<Rightarrow> (Inl e, fs)
              | Inr geojsons \<Rightarrow>
                 (let fs1 = fs(geodata_path g \<mapsto> GeoJSON geojsons)
                  in if ts = [] then (Inl IndexError, fs1(geoplot_path g \<mapsto> Truncated))
                     else (Inr (),
                           fs1(geoplot_path g \<mapsto> Html
                             \<lparr>accessToken = cesium_token g, startTime = hd ts,
                              stopTime = last ts, data = geojsons,
                              visualType = visualization_type g\<rparr>))))))"

subsection \<open>Sample inputs\<close>

text \<open>
  A state whose path \<^verbatim>\<open>agents/consumers/coordinates\<close> holds \<open>c\<close> and whose path
  \<^verbatim>\<open>agents/consumers/money_spent\<close> holds \<open>v\<close>, as in the usage example of the module's
  docstring, and a plot object reading those two paths with a step of 3600 seconds, an int.
\<close>

definition consumers_state :: "arr \<Rightarrow> arr \<Rightarrow> state" where
  "consumers_state c v =
     Dict [(''agents'', Dict [(''consumers'',
       Dict [(''coordinates'', Leaf c), (''money_spent'', Leaf v)])])]"

definition sample_plot :: "int \<Rightarrow> int \<Rightarrow> geoplot" where
  "sample_plot n k =
     \<lparr>config = \<lparr>name = ''sim'', num_episodes = n, num_steps_per_episode = k\<rparr>,
      cesium_token = ''token'', step_time = PyInt 3600,
      entity_position = ''agents/consumers/coordinates'',
      entity_property = ''agents/consumers/money_spent'',
      visualization_type = ''color''\<rparr>"

text \<open>
  Two entities at \<open>[[1.0, 2.0], [3.0, 4.0]]\<close>; two episodes of one state each, with feature
  values \<open>[10, 20]\<close> and \<open>[30, 40]\<close>.
\<close>

definition two_coords :: arr where
  "two_coords = Arr [Arr [Num 1, Num 2], Arr [Num 3, Num 4]]"

definition two_episodes :: "state list list" where
  "two_episodes =
     [[consumers_state two_coords (Arr [Num 10, Num 20])],
      [consumers_state two_coords (Arr [Num 30, Num 40])]]"

text \<open>
  A third episode after those two, and the GeoJSON array that render writes for the three:
  two features per entity, from the first two episodes.
\<close>

definition three_episodes :: "state list list" where
  "three_episodes = two_episodes @ [[consumers_state two_coords (Arr [Num 50, Num 60])]]"

definition three_out :: "int \<Rightarrow> feature_collection list" where
  "three_out s =
     [FeatureCollection [\<lparr>coordinates = [Num 2, Num 1], val = 10, time = s\<rparr>,
                         \<lparr>coordinates = [Num 2, Num 1], val = 30, time = s + 3600000000000\<rparr>],
      FeatureCollection [\<lparr>coordinates = [Num 4, Num 3], val = 20, time = s\<rparr>,
                         \<lparr>coordinates = [Num 4, Num 3], val = 40, time = s + 3600000000000\<rparr>]]"

text \<open>
  The state \<open>{a: {b: {c: 42}}}\<close>, and a trajectory of two episodes holding it, in which
  neither path of the sample plot resolves.
\<close>

definition abc_state :: state where
  "abc_state = Dict [(''a'', Dict [(''b'', Dict [(''c'', Leaf (Num 42))])])]"


text \<open>The first of the two episodes alone.\<close>

definition one_episode :: "state list list" where
  "one_episode = [[consumers_state two_coords (Arr [Num 10, Num 20])]]"

text \<open>
  One entity with two feature values per episode; two entities with one feature value per
  episode.
\<close>

definition one_entity_episodes :: "state list list" where
  "one_entity_episodes =
     [[consumers_state (Arr [Arr [Num 1, Num 2]]) (Arr [Num 10, Num 20])],
      [consumers_state (Arr [Arr [Num 1, Num 2]]) (Arr [Num 30, Num 40])]]"

definition short_values_episodes :: "state list list" where
  "short_values_episodes =
     [[consumers_state two_coords (Arr [Num 10])],
      [consumers_state two_coords (Arr [Num 30])]]"

text \<open>Two episodes whose coordinates differ: the entities have moved in the last episode.\<close>

definition moved_episodes :: "state list list" where
  "moved_episodes =
     [[consumers_state two_coords (Arr [Num 10, Num 20])],
      [consumers_state (Arr [Arr [Num 5, Num 6], Arr [Num 7, Num 8]]) (Arr [Num 30, Num 40])]]"


section \<open>Properties\<close>

subsection \<open>What a successful loop returns\<close>

lemma paths_distinct: "geodata_path g \<noteq> geoplot_path g"
  by (simp add: geodata_path_def geoplot_path_def)

lemma make_feature_Inr:
  "make_feature i coord t vl = Inr f \<Longrightarrow>
     \<exists>lon lat. getitem coord 1 = Inr lon \<and> getitem coord 0 = Inr lat \<and> i < length vl \<and>
       f = \<lparr>coordinates = [lon, lat], val = vl ! i, time = t\<rparr>"
  by (auto simp: make_feature_def list_getitem_def split: sum.splits if_splits)

lemma features_loop_Inr:
  "features_loop i coord tv = Inr fs \<Longrightarrow>
     list_all2 (\<lambda>f (t, vl). make_feature i coord t vl = Inr f) fs tv"
proof (induction tv arbitrary: fs)
  case Nil
  then show ?case by simp
next
  case (Cons p tv)
  obtain t vl where p: "p = (t, vl)" by (cases p)
  from Cons.prems obtain f fs0 where
    f: "make_feature i coord t vl = Inr f" and
    fs0: "features_loop i coord tv = Inr fs0" and
    fs: "fs = f # fs0"
    by (auto simp: p split: sum.splits)
  from Cons.IH [OF fs0] f show ?case by (simp add: fs p)
qed

lemma features_loop_length: "features_loop i coord tv = Inr fs \<Longrightarrow> length fs = length tv"
  by (drule features_loop_Inr) (rule list_all2_lengthD)

lemma features_loop_nth:
  assumes "features_loop i coord tv = Inr fs" and "j < length fs"
  shows "make_feature i coord (fst (tv ! j)) (snd (tv ! j)) = Inr (fs ! j)"
proof -
  from assms(1) have "list_all2 (\<lambda>f (t, vl). make_feature i coord t vl = Inr f) fs tv"
    by (rule features_loop_Inr)
  from list_all2_nthD [OF this assms(2)] show ?thesis by (simp add: case_prod_beta)
qed

lemma geojsons_loop_Inr:
  "geojsons_loop i cs tv = Inr gs \<Longrightarrow>
     length gs = length cs \<and>
     (\<forall>k<length cs. features_loop (i + k) (cs ! k) tv = Inr (features (gs ! k)))"
proof (induction cs arbitrary: i gs)
  case Nil
  then show ?case by simp
next
  case (Cons c cs)
  from Cons.prems obtain fs gs0 where
    fs: "features_loop i c tv = Inr fs" and
    gs0: "geojsons_loop (Suc i) cs tv = Inr gs0" and
    gs: "gs = FeatureCollection fs # gs0"
    by (auto split: sum.splits)
  from Cons.IH [OF gs0] have len: "length gs0 = length cs"
    and nth: "\<And>k. k < length cs \<Longrightarrow> features_loop (Suc i + k) (cs ! k) tv = Inr (features (gs0 ! k))"
    by auto
  show ?case
  proof (intro conjI allI impI)
    show "length gs = length (c # cs)" by (simp add: gs len)
  next
    fix k assume "k < length (c # cs)"
    then show "features_loop (i + k) ((c # cs) ! k) tv = Inr (features (gs ! k))"
      using fs nth by (cases k) (simp_all add: gs)
  qed
qed

lemma encode_Inr:
  assumes "encode coords ts vals = Inr gs"
  shows "\<exists>cs. coords = Arr cs \<and> length gs = length cs \<and>
           (\<forall>k<length cs. features_loop k (cs ! k) (zip ts vals) = Inr (features (gs ! k)))"
proof (cases coords)
  case (Num x)
  with assms show ?thesis by (simp add: encode_def)
next
  case (Arr cs)
  with assms have "geojsons_loop 0 cs (zip ts vals) = Inr gs" by (simp add: encode_def)
  from geojsons_loop_Inr [OF this] Arr show ?thesis by simp
qed

lemma render_written:
  assumes "fs (geodata_path g) = None"
    and "snd (render g start traj fs) (geodata_path g) = Some (GeoJSON gs)"
  shows "\<exists>coords vals ts. read_trajectory g traj = Inr (coords, vals) \<and>
           timestamps g start = Inr ts \<and> encode coords ts vals = Inr gs"
  using assms paths_distinct [of g]
  by (auto simp: render_def Let_def split: sum.splits prod.splits if_splits)

lemma render_Inr:
  assumes "fst (render g start traj fs) = Inr ()"
  shows "\<exists>coords vals ts gs. read_trajectory g traj = Inr (coords, vals) \<and>
           timestamps g start = Inr ts \<and> encode coords ts vals = Inr gs \<and> ts \<noteq> [] \<and>
           snd (render g start traj fs) (geodata_path g) = Some (GeoJSON gs)"
  using assms paths_distinct [of g]
  by (auto simp: render_def Let_def split: sum.splits prod.splits if_splits)

subsection \<open>The times of the features\<close>

lemma features_loop_times:
  "features_loop i coord tv = Inr fs \<Longrightarrow> map time fs = map fst tv"
proof (induction tv arbitrary: fs)
  case Nil
  then show ?case by simp
next
  case (Cons p tv)
  obtain t vl where p: "p = (t, vl)" by (cases p)
  from Cons.prems obtain f fs0 where
    f: "make_feature i coord t vl = Inr f" and
    fs0: "features_loop i coord tv = Inr fs0" and
    fs: "fs = f # fs0"
    by (auto simp: p split: sum.splits)
  from make_feature_Inr [OF f] have "time f = t" by auto
  with Cons.IH [OF fs0] show ?case by (simp add: fs p)
qed

lemma map_fst_zip_length: "map fst (zip xs ys) = take (length ys) xs"
  by (induction xs ys rule: list_induct2') simp_all

lemma encode_times:
  assumes "encode coords ts vals = Inr gs" and "fc \<in> set gs"
  shows "map time (features fc) = take (length vals) ts"
proof -
  from encode_Inr [OF assms(1)] obtain cs where len: "length gs = length cs"
    and loop: "\<And>k. k < length cs \<Longrightarrow>
      features_loop k (cs ! k) (zip ts vals) = Inr (features (gs ! k))"
    by blast
  from assms(2) obtain k where k: "k < length gs" and fc: "fc = gs ! k"
    by (auto simp: in_set_conv_nth)
  from k len have "features_loop k (cs ! k) (zip ts vals) = Inr (features fc)"
    by (simp add: loop fc)
  from features_loop_times [OF this] show ?thesis by (simp add: map_fst_zip_length)
qed

lemma timestamps_loop_Inr:
  "timestamps_loop start step js = Inr ts \<Longrightarrow>
     ts = map (\<lambda>i. start + seconds_to_ticks i step) js"
proof (induction js arbitrary: ts)
  case Nil
  then show ?case by simp
next
  case (Cons i js)
  from Cons.prems obtain d t ts0 where
    d: "timedelta i step = Inr d" and
    t: "timestamp_add start d = Inr t" and
    ts0: "timestamps_loop start step js = Inr ts0" and
    ts: "ts = t # ts0"
    by (auto split: sum.splits)
  from d have "d = seconds_to_ticks i step" by (simp add: timedelta_def split: if_splits)
  moreover from t have "t = start + d" by (simp add: timestamp_add_def split: if_splits)
  ultimately show ?case using Cons.IH [OF ts0] by (simp add: ts)
qed

lemma timestamps_Inr:
  "timestamps g start = Inr ts \<Longrightarrow>
     ts = map (\<lambda>i. start + seconds_to_ticks i (step_time g))
            [0 ..< nat (num_episodes (config g) * num_steps_per_episode (config g))]"
  unfolding timestamps_def by (rule timestamps_loop_Inr)

lemma length_timestamps:
  "timestamps g start = Inr ts \<Longrightarrow>
     length ts = nat (num_episodes (config g) * num_steps_per_episode (config g))"
  by (drule timestamps_Inr) simp

lemma nth_timestamps:
  "timestamps g start = Inr ts \<Longrightarrow> j < length ts \<Longrightarrow>
     ts ! j = start + seconds_to_ticks j (step_time g)"
  by (drule timestamps_Inr) simp

lemma seconds_to_ticks_0: "seconds_to_ticks 0 step = 0"
  by (cases step) (simp_all add: seconds_to_ticks_def py_int_def)

lemma hd_timestamps: "timestamps g start = Inr ts \<Longrightarrow> ts \<noteq> [] \<Longrightarrow> hd ts = start"
  using nth_timestamps [of g start ts 0] by (simp add: hd_conv_nth seconds_to_ticks_0)

lemma timestamps_Nil:
  "timestamps g start = Inr ts \<Longrightarrow>
     ts = [] \<longleftrightarrow> num_episodes (config g) * num_steps_per_episode (config g) \<le> 0"
  by (drule timestamps_Inr) simp


subsection \<open>What render writes, given its three phases\<close>

lemma render_built:
  assumes "read_trajectory g traj = Inr (coords, vals)"
    and "timestamps g start = Inr ts"
    and "encode coords ts vals = Inr gs"
  shows "fst (render g start traj fs) = (if ts = [] then Inl IndexError else Inr ())"
    and "snd (render g start traj fs) (geodata_path g) = Some (GeoJSON gs)"
    and "ts = [] \<Longrightarrow> snd (render g start traj fs) (geoplot_path g) = Some Truncated"
    and "ts \<noteq> [] \<Longrightarrow> snd (render g start traj fs) (geoplot_path g) =
           Some (Html \<lparr>accessToken = cesium_token g, startTime = hd ts, stopTime = last ts,
                  data = gs, visualType = visualization_type g\<rparr>)"
  using assms paths_distinct [of g] by (simp_all add: render_def Let_def)

lemma read_trajectory_Nil: "read_trajectory g [] = Inr (Arr [], [])"
  by (simp add: read_trajectory_def)

lemma encode_no_coords: "encode (Arr []) ts vals = Inr []"
  by (simp add: encode_def)

subsection \<open>Splitting and walking a path\<close>

lemma split_acc_not_Nil: "split_acc acc cs \<noteq> []"
  by (induction acc cs rule: split_acc.induct) auto

lemma join_slash_Cons: "ys \<noteq> [] \<Longrightarrow> join_slash (x # ys) = x @ CHR ''/'' # join_slash ys"
  by (cases ys) simp_all

lemma join_split_acc: "join_slash (split_acc acc cs) = rev acc @ cs"
  by (induction acc cs rule: split_acc.induct) (simp_all add: join_slash_Cons split_acc_not_Nil)

lemma split_acc_no_slash:
  "CHR ''/'' \<notin> set acc \<Longrightarrow> seg \<in> set (split_acc acc cs) \<Longrightarrow> CHR ''/'' \<notin> set seg"
  by (induction acc cs rule: split_acc.induct) (auto split: if_splits)

lemma get_by_path_append:
  "get_by_path st (ks @ ks') =
     (case get_by_path st ks of Inl e \<Rightarrow> Inl e | Inr v \<Rightarrow> get_by_path v ks')"
  by (induction st ks rule: get_by_path.induct) (auto split: option.splits)

lemma get_by_path_error: "get_by_path st ks = Inl e \<Longrightarrow> e = PathNotFound"
  by (induction st ks rule: get_by_path.induct) (auto split: option.splits)

lemma get_by_path_missing:
  "(\<forall>kvs. v = Dict kvs \<longrightarrow> map_of kvs k = None) \<Longrightarrow> get_by_path v (k # post) = Inl PathNotFound"
  by (cases v) simp_all

subsection \<open>Coordinates that are pairs: when the feature values run out\<close>

lemma make_feature_pair:
  "2 \<le> length xs \<Longrightarrow>
   make_feature i (Arr xs) t vl =
     (if i < length vl then Inr \<lparr>coordinates = [xs ! 1, xs ! 0], val = vl ! i, time = t\<rparr>
      else Inl IndexError)"
  by (auto simp: make_feature_def getitem_def list_getitem_def)

lemma features_loop_pair:
  assumes xs: "2 \<le> length xs"
  shows "features_loop i (Arr xs) tv =
     (if \<forall>p \<in> set tv. i < length (snd p)
      then Inr (map (\<lambda>p. \<lparr>coordinates = [xs ! 1, xs ! 0], val = snd p ! i, time = fst p\<rparr>) tv)
      else Inl IndexError)"
proof (induction tv)
  case Nil
  show ?case by simp
next
  case (Cons p tv)
  obtain t vl where p: "p = (t, vl)" by (cases p)
  show ?case
    unfolding p by (simp add: make_feature_pair [OF xs] Cons.IH)
qed

lemma geojsons_loop_pairs:
  assumes "\<forall>c \<in> set cs. \<exists>xs. c = Arr xs \<and> 2 \<le> length xs"
  shows "if \<forall>k<length cs. \<forall>p \<in> set tv. i + k < length (snd p)
         then \<exists>gs. geojsons_loop i cs tv = Inr gs \<and> length gs = length cs
         else geojsons_loop i cs tv = Inl IndexError"
  using assms
proof (induction cs arbitrary: i)
  case Nil
  then show ?case by simp
next
  case (Cons c cs)
  from Cons.prems obtain xs where c: "c = Arr xs" and xs: "2 \<le> length xs" by auto
  from Cons.prems have rest: "\<forall>c \<in> set cs. \<exists>xs. c = Arr xs \<and> 2 \<le> length xs" by simp
  note IH = Cons.IH [OF rest, of "Suc i"]
  have split: "(\<forall>k<length (c # cs). \<forall>p \<in> set tv. i + k < length (snd p)) \<longleftrightarrow>
      (\<forall>p \<in> set tv. i < length (snd p)) \<and>
      (\<forall>k<length cs. \<forall>p \<in> set tv. Suc i + k < length (snd p))"
  proof (intro iffI conjI allI impI ballI)
    fix q assume a: "\<forall>k<length (c # cs). \<forall>p \<in> set tv. i + k < length (snd p)" and q: "q \<in> set tv"
    from a have "0 < length (c # cs) \<longrightarrow> (\<forall>p \<in> set tv. i + 0 < length (snd p))" by blast
    with q show "i < length (snd q)" by simp
  next
    fix k q assume a: "\<forall>k<length (c # cs). \<forall>p \<in> set tv. i + k < length (snd p)"
      and k: "k < length cs" and q: "q \<in> set tv"
    from a have "Suc k < length (c # cs) \<longrightarrow> (\<forall>p \<in> set tv. i + Suc k < length (snd p))"
      by blast
    with k q show "Suc i + k < length (snd q)" by simp
  next
    fix k q assume b: "(\<forall>p \<in> set tv. i < length (snd p)) \<and>
        (\<forall>k<length cs. \<forall>p \<in> set tv. Suc i + k < length (snd p))"
      and k: "k < length (c # cs)" and q: "q \<in> set tv"
    show "i + k < length (snd q)"
    proof (cases k)
      case 0
      with b q show ?thesis by simp
    next
      case (Suc k')
      with k have "k' < length cs" by simp
      with b q have "Suc i + k' < length (snd q)" by blast
      then show ?thesis by (simp add: Suc)
    qed
  qed
  show ?case
  proof (cases "\<forall>p \<in> set tv. i < length (snd p)")
    case False
    then have "features_loop i c tv = Inl IndexError"
      by (simp add: c features_loop_pair [OF xs])
    then have res: "geojsons_loop i (c # cs) tv = Inl IndexError" by simp
    from False have cond: "\<not> (\<forall>k<length (c # cs). \<forall>p \<in> set tv. i + k < length (snd p))"
      unfolding split by simp
    show ?thesis by (subst if_not_P [OF cond]) (rule res)
  next
    case True
    then obtain fs where fl: "features_loop i c tv = Inr fs"
      by (simp add: c features_loop_pair [OF xs])
    show ?thesis
    proof (cases "\<forall>k<length cs. \<forall>p \<in> set tv. Suc i + k < length (snd p)")
      case all: True
      with IH obtain gs where gs: "geojsons_loop (Suc i) cs tv = Inr gs" "length gs = length cs"
        by auto
      have res: "\<exists>gs'. geojsons_loop i (c # cs) tv = Inr gs' \<and> length gs' = length (c # cs)"
        by (simp add: fl gs)
      from True all have cond: "\<forall>k<length (c # cs). \<forall>p \<in> set tv. i + k < length (snd p)"
        unfolding split by simp
      show ?thesis by (subst if_P [OF cond]) (rule res)
    next
      case some: False
      with IH have "geojsons_loop (Suc i) cs tv = Inl IndexError" by auto
      then have res: "geojsons_loop i (c # cs) tv = Inl IndexError" by (simp add: fl)
      from some have cond: "\<not> (\<forall>k<length (c # cs). \<forall>p \<in> set tv. i + k < length (snd p))"
        unfolding split by simp
      show ?thesis by (subst if_not_P [OF cond]) (rule res)
    qed
  qed
qed

lemma zip_snd_lengths:
  "(\<forall>k<n. \<forall>p \<in> set (zip ts vals). k < length (snd p)) \<longleftrightarrow>
   (\<forall>j. j < length ts \<longrightarrow> j < length vals \<longrightarrow> n \<le> length (vals ! j))"
proof
  assume l: "\<forall>k<n. \<forall>p \<in> set (zip ts vals). k < length (snd p)"
  show "\<forall>j. j < length ts \<longrightarrow> j < length vals \<longrightarrow> n \<le> length (vals ! j)"
  proof (intro allI impI)
    fix j assume j: "j < length ts" "j < length vals"
    then have "(ts ! j, vals ! j) \<in> set (zip ts vals)"
      by (auto simp: set_zip)
    with l have "\<forall>k<n. k < length (vals ! j)" by fastforce
    then show "n \<le> length (vals ! j)" by (meson not_le_imp_less order_less_irrefl)
  qed
next
  assume r: "\<forall>j. j < length ts \<longrightarrow> j < length vals \<longrightarrow> n \<le> length (vals ! j)"
  show "\<forall>k<n. \<forall>p \<in> set (zip ts vals). k < length (snd p)"
  proof (intro allI impI ballI)
    fix k p assume k: "k < n" and p: "p \<in> set (zip ts vals)"
    from p obtain j where "j < length ts" "j < length vals" "snd p = vals ! j"
      by (auto simp: set_zip)
    with r k show "k < length (snd p)" by fastforce
  qed
qed

lemma encode_pairs:
  assumes "\<forall>c \<in> set cs. \<exists>xs. c = Arr xs \<and> 2 \<le> length xs"
  shows "if \<forall>j. j < length ts \<longrightarrow> j < length vals \<longrightarrow> length cs \<le> length (vals ! j)
         then \<exists>gs. encode (Arr cs) ts vals = Inr gs \<and> length gs = length cs
         else encode (Arr cs) ts vals = Inl IndexError"
  using geojsons_loop_pairs [OF assms, of "zip ts vals" 0]
  by (simp add: encode_def zip_snd_lengths)

subsection \<open>The values of the features; values beyond the coordinate list\<close>

lemma encode_values:
  assumes enc: "encode coords ts vals = Inr gs"
    and i: "i < length gs" and j: "j < length ts" "j < length vals"
  shows "j < length (features (gs ! i)) \<and> val (features (gs ! i) ! j) = vals ! j ! i \<and>
         time (features (gs ! i) ! j) = ts ! j"
proof -
  from encode_Inr [OF enc] obtain cs where len: "length gs = length cs"
    and loop: "\<And>k. k < length cs \<Longrightarrow>
      features_loop k (cs ! k) (zip ts vals) = Inr (features (gs ! k))"
    by blast
  from i len have fl: "features_loop i (cs ! i) (zip ts vals) = Inr (features (gs ! i))"
    by (simp add: loop)
  from features_loop_length [OF fl] j have jl: "j < length (features (gs ! i))" by simp
  from features_loop_nth [OF fl jl] j
  have "make_feature i (cs ! i) (ts ! j) (vals ! j) = Inr (features (gs ! i) ! j)" by simp
  from make_feature_Inr [OF this] jl show ?thesis by auto
qed

lemma list_getitem_take: "i < n \<Longrightarrow> list_getitem (take n vl) i = list_getitem vl i"
  by (simp add: list_getitem_def)

lemma make_feature_take:
  "i < n \<Longrightarrow> make_feature i c t (take n vl) = make_feature i c t vl"
  by (simp add: make_feature_def list_getitem_take cong: sum.case_cong)

lemma features_loop_take:
  "i < n \<Longrightarrow>
     features_loop i c (zip ts (map (take n) vals)) = features_loop i c (zip ts vals)"
proof (induction ts arbitrary: vals)
  case Nil
  show ?case by simp
next
  case (Cons t ts)
  show ?case
  proof (cases vals)
    case Nil
    then show ?thesis by simp
  next
    case (Cons vl rest)
    with Cons.prems Cons.IH [OF Cons.prems, of rest] show ?thesis
      by (simp add: make_feature_take cong: sum.case_cong)
  qed
qed

lemma geojsons_loop_take:
  "i + length cs \<le> n \<Longrightarrow>
     geojsons_loop i cs (zip ts (map (take n) vals)) = geojsons_loop i cs (zip ts vals)"
proof (induction cs arbitrary: i)
  case Nil
  show ?case by simp
next
  case (Cons c cs)
  from Cons.prems have "i < n" and "Suc i + length cs \<le> n" by simp_all
  with Cons.IH [of "Suc i"] show ?case
    by (simp add: features_loop_take cong: sum.case_cong)
qed

lemma encode_take:
  "encode (Arr cs) ts (map (take (length cs)) vals) = encode (Arr cs) ts vals"
  by (simp add: encode_def geojsons_loop_take)

subsection \<open>The sample inputs, evaluated\<close>

lemma read_var_coordinates:
  "read_var (consumers_state c v) ''agents/consumers/coordinates'' = Inr (Leaf c)"
  by (simp add: read_var_def re_split_def consumers_state_def)

lemma read_var_money_spent:
  "read_var (consumers_state c v) ''agents/consumers/money_spent'' = Inr (Leaf v)"
  by (simp add: read_var_def re_split_def consumers_state_def)

lemma np_shape_two_coords: "np_shape two_coords = Some [2, 2]"
  by (simp add: two_coords_def)

lemma read_two_episodes:
  "read_trajectory (sample_plot n k) two_episodes = Inr (two_coords, [[10, 20]])"
  by (simp add: read_trajectory_def sample_plot_def two_episodes_def read_var_coordinates
      read_var_money_spent np_tolist_def np_flatten_tolist_def np_shape_two_coords)

lemmas tick_defs =
  timestamps_def timedelta_def timestamp_add_def seconds_to_ticks_def in_bounds_def
  int64_max_def

lemma timestamps_1_1: "timestamps (sample_plot 1 1) 0 = Inr [0]"
  by (simp add: tick_defs sample_plot_def upt_rec)


lemma timestamps_2_1: "timestamps (sample_plot 2 1) 0 = Inr [0, 3600000000000]"
  by (simp add: tick_defs sample_plot_def upt_rec)

lemma timestamps_3_1:
  "timestamps (sample_plot 3 1) 0 = Inr [0, 3600000000000, 7200000000000]"
  by (simp add: tick_defs sample_plot_def upt_rec)


lemma encode_two_coords:
  "encode two_coords (t # ts) [[10, 20]] =
     Inr [FeatureCollection [\<lparr>coordinates = [Num 2, Num 1], val = 10, time = t\<rparr>],
          FeatureCollection [\<lparr>coordinates = [Num 4, Num 3], val = 20, time = t\<rparr>]]"
  by (simp add: encode_def two_coords_def make_feature_def getitem_def list_getitem_def)

lemma ok_two_episodes: "fst (render (sample_plot 2 1) 0 two_episodes fs) = Inr ()"
  using render_built(1) [OF read_two_episodes timestamps_2_1 encode_two_coords] by simp

lemma written_two_episodes:
  "snd (render (sample_plot 2 1) 0 two_episodes fs) (geodata_path (sample_plot 2 1)) =
     Some (GeoJSON
       [FeatureCollection [\<lparr>coordinates = [Num 2, Num 1], val = 10, time = 0\<rparr>],
        FeatureCollection [\<lparr>coordinates = [Num 4, Num 3], val = 20, time = 0\<rparr>]])"
  by (rule render_built(2) [OF read_two_episodes timestamps_2_1 encode_two_coords])

lemma read_three_episodes:
  "read_trajectory (sample_plot n k) three_episodes = Inr (two_coords, [[10, 20], [30, 40]])"
  by (simp add: read_trajectory_def sample_plot_def two_episodes_def three_episodes_def
      read_var_coordinates read_var_money_spent np_tolist_def np_flatten_tolist_def
      np_shape_two_coords)

lemma encode_three:
  "encode two_coords (t0 # t1 # ts) [[10, 20], [30, 40]] =
     Inr [FeatureCollection [\<lparr>coordinates = [Num 2, Num 1], val = 10, time = t0\<rparr>,
                             \<lparr>coordinates = [Num 2, Num 1], val = 30, time = t1\<rparr>],
          FeatureCollection [\<lparr>coordinates = [Num 4, Num 3], val = 20, time = t0\<rparr>,
                             \<lparr>coordinates = [Num 4, Num 3], val = 40, time = t1\<rparr>]]"
  by (simp add: encode_def two_coords_def make_feature_def getitem_def list_getitem_def)

lemma encode_three_out:
  "encode two_coords [0, 3600000000000, 7200000000000] [[10, 20], [30, 40]] =
     Inr (three_out 0)"
  by (simp add: encode_three three_out_def)

lemma ok_three_episodes: "fst (render (sample_plot 3 1) 0 three_episodes fs) = Inr ()"
  using render_built(1) [OF read_three_episodes timestamps_3_1 encode_three_out] by simp

lemma written_three_episodes:
  "snd (render (sample_plot 3 1) 0 three_episodes fs) (geodata_path (sample_plot 3 1)) =
     Some (GeoJSON (three_out 0))"
  by (rule render_built(2) [OF read_three_episodes timestamps_3_1 encode_three_out])


lemma read_one_episode: "read_trajectory g one_episode = Inr (Arr [], [])"
  by (simp add: read_trajectory_def one_episode_def)

lemma read_short_values:
  "read_trajectory (sample_plot n k) short_values_episodes = Inr (two_coords, [[10]])"
  by (simp add: read_trajectory_def sample_plot_def short_values_episodes_def
      read_var_coordinates read_var_money_spent np_tolist_def np_flatten_tolist_def
      np_shape_two_coords)

lemma read_one_entity:
  "read_trajectory (sample_plot n k) one_entity_episodes =
     Inr (Arr [Arr [Num 1, Num 2]], [[10, 20]])"
  by (simp add: read_trajectory_def sample_plot_def one_entity_episodes_def
      read_var_coordinates read_var_money_spent np_tolist_def np_flatten_tolist_def)

lemma read_moved:
  "read_trajectory (sample_plot n k) moved_episodes = Inr (two_coords, [[10, 20]])"
  by (simp add: read_trajectory_def sample_plot_def moved_episodes_def
      read_var_coordinates read_var_money_spent np_tolist_def np_flatten_tolist_def
      np_shape_two_coords)


lemma encode_one_entity:
  "encode (Arr [Arr [Num 1, Num 2]]) (t # ts) [[10, 20]] =
     Inr [FeatureCollection [\<lparr>coordinates = [Num 2, Num 1], val = 10, time = t\<rparr>]]"
  by (simp add: encode_def make_feature_def getitem_def list_getitem_def)

subsection \<open>Coordinate order\<close>

text \<open>
  Claim C4. Every feature that render writes for entity \<open>i\<close> carries the resolved coordinate
  of that entity with its two components swapped: when the coordinate resolved for entity
  \<open>i\<close> is \<open>[lat, lon]\<close>, the feature's \<open>coordinates\<close> are \<open>[lon, lat]\<close>. The GeoJSON file
  is assumed absent before the call, so that what the path holds afterwards was written by
  the call.
\<close>

theorem render_swaps_coordinates:
  assumes absent: "fs (geodata_path g) = None"
    and written: "snd (render g start traj fs) (geodata_path g) = Some (GeoJSON gs)"
    and resolved: "read_trajectory g traj = Inr (coords, vals)"
    and i: "i < length gs"
    and f: "f \<in> set (features (gs ! i))"
    and pair: "getitem coords i = Inr (Arr [lat, lon])"
  shows "coordinates f = [lon, lat]"
proof -
  from render_written [OF absent written] resolved
  obtain ts where enc: "encode coords ts vals = Inr gs" by auto
  from encode_Inr [OF enc] obtain cs where cs: "coords = Arr cs" and len: "length gs = length cs"
    and loop: "\<And>k. k < length cs \<Longrightarrow>
      features_loop k (cs ! k) (zip ts vals) = Inr (features (gs ! k))"
    by blast
  from pair cs have c: "cs ! i = Arr [lat, lon]"
    by (simp add: getitem_def split: if_splits)
  from f obtain j where j: "j < length (features (gs ! i))" and fj: "f = features (gs ! i) ! j"
    by (auto simp: in_set_conv_nth)
  from i len have "features_loop i (cs ! i) (zip ts vals) = Inr (features (gs ! i))"
    by (simp add: loop)
  from features_loop_nth [OF this j] obtain t vl where "make_feature i (cs ! i) t vl = Inr f"
    by (auto simp: fj)
  from make_feature_Inr [OF this] show ?thesis
    by (auto simp: c getitem_def)
qed

theorem render_swaps_coordinates_witness:
  "Map.empty (geodata_path (sample_plot 2 1)) = None \<and>
   snd (render (sample_plot 2 1) 0 two_episodes Map.empty) (geodata_path (sample_plot 2 1)) =
     Some (GeoJSON
       [FeatureCollection [\<lparr>coordinates = [Num 2, Num 1], val = 10, time = 0\<rparr>],
        FeatureCollection [\<lparr>coordinates = [Num 4, Num 3], val = 20, time = 0\<rparr>]]) \<and>
   read_trajectory (sample_plot 2 1) two_episodes = Inr (two_coords, [[10, 20]]) \<and>
   getitem two_coords 1 = Inr (Arr [Num 3, Num 4]) \<and>
   coordinates \<lparr>coordinates = [Num 4, Num 3], val = 20, time = 0\<rparr> = [Num 4, Num 3]"
proof -
  let ?g = "sample_plot 2 1"
  let ?gs = "[FeatureCollection [\<lparr>coordinates = [Num 2, Num 1], val = 10, time = 0\<rparr>],
        FeatureCollection [\<lparr>coordinates = [Num 4, Num 3], val = 20, time = 0\<rparr>]]"
  have h1: "Map.empty (geodata_path ?g) = None" by simp
  have h2: "snd (render ?g 0 two_episodes Map.empty) (geodata_path ?g) = Some (GeoJSON ?gs)"
    by (rule written_two_episodes)
  have h3: "read_trajectory ?g two_episodes = Inr (two_coords, [[10, 20]])"
    by (rule read_two_episodes)
  have h4: "1 < length ?gs" by simp
  have h5: "\<lparr>coordinates = [Num 4, Num 3], val = 20, time = 0\<rparr> \<in> set (features (?gs ! 1))"
    by simp
  have h6: "getitem two_coords 1 = Inr (Arr [Num 3, Num 4])"
    by (simp add: getitem_def two_coords_def)
  from render_swaps_coordinates [OF h1 h2 h3 h4 h5 h6] h1 h2 h3 h6 show ?thesis by simp
qed

subsection \<open>Timestamps\<close>




subsection \<open>Number of features\<close>

text \<open>
  Claim C10. When render does not fail, every feature collection it writes has the same
  number of features: the minimum of \<open>num_episodes * num_steps_per_episode\<close>, the length of
  the timeline, and the number of accumulated per-episode value lists, since the timeline is
  zipped against those lists.
\<close>

theorem feature_count_is_zip_length:
  assumes ok: "fst (render g start traj fs) = Inr ()"
  shows "\<exists>coords vals gs.
           read_trajectory g traj = Inr (coords, vals) \<and>
           snd (render g start traj fs) (geodata_path g) = Some (GeoJSON gs) \<and>
           (\<forall>fc \<in> set gs. length (features fc) =
              min (nat (num_episodes (config g) * num_steps_per_episode (config g)))
                  (length vals))"
proof -
  from render_Inr [OF ok] obtain coords vals ts gs where
    rd: "read_trajectory g traj = Inr (coords, vals)" and
    tl: "timestamps g start = Inr ts" and
    enc: "encode coords ts vals = Inr gs" and
    wr: "snd (render g start traj fs) (geodata_path g) = Some (GeoJSON gs)"
    by blast
  have "length (features fc) =
          min (nat (num_episodes (config g) * num_steps_per_episode (config g))) (length vals)"
    if "fc \<in> set gs" for fc
  proof -
    have "length (features fc) = length (map time (features fc))" by simp
    also have "\<dots> = length (take (length vals) ts)"
      using encode_times [OF enc that] by simp
    finally show ?thesis by (simp add: length_timestamps [OF tl] min.commute)
  qed
  with rd wr show ?thesis by blast
qed

theorem feature_count_is_zip_length_witness:
  "fst (render (sample_plot 3 1) 0 three_episodes Map.empty) = Inr () \<and>
   (\<exists>coords vals gs.
      read_trajectory (sample_plot 3 1) three_episodes = Inr (coords, vals) \<and>
      snd (render (sample_plot 3 1) 0 three_episodes Map.empty) (geodata_path (sample_plot 3 1)) =
        Some (GeoJSON gs) \<and>
      (\<forall>fc \<in> set gs. length (features fc) =
         min (nat (num_episodes (config (sample_plot 3 1)) *
                   num_steps_per_episode (config (sample_plot 3 1))))
             (length vals)))"
proof -
  have h: "fst (render (sample_plot 3 1) 0 three_episodes Map.empty) = Inr ()"
    by (rule ok_three_episodes)
  from feature_count_is_zip_length [OF h] h show ?thesis by blast
qed

subsection \<open>The path resolver\<close>

text \<open>
  Claim C7. \<open>read_var\<close> splits the path at every slash (the segments are slash-free and,
  joined with slashes, give the path back) and looks the segments up one after the other,
  left to right: resolving a path is resolving a prefix of its segments and then the rest
  from the value found. It fails with \<open>PathNotFound\<close>, and with nothing else, and does so
  whenever the value reached before some segment is not a mapping or has no such key. On
  \<open>{a: {b: {c: 42}}}\<close> the path \<open>a/b/c\<close> resolves to 42 and \<open>a/x\<close> fails with \<open>PathNotFound\<close>.
\<close>

theorem read_var_resolves_path:
  "(re_split var \<noteq> [] \<and> join_slash (re_split var) = var \<and>
      (\<forall>seg \<in> set (re_split var). CHR ''/'' \<notin> set seg)) \<and>
   read_var st var = get_by_path st (re_split var) \<and>
   (re_split var = pre @ post \<longrightarrow>
      read_var st var =
        (case get_by_path st pre of Inl e \<Rightarrow> Inl e | Inr v \<Rightarrow> get_by_path v post)) \<and>
   (re_split var = pre @ k # post \<and> get_by_path st pre = Inr v \<and>
      (\<forall>kvs. v = Dict kvs \<longrightarrow> map_of kvs k = None) \<longrightarrow>
      read_var st var = Inl PathNotFound) \<and>
   (read_var st var = Inl e \<longrightarrow> e = PathNotFound) \<and>
   read_var abc_state ''a/b/c'' = Inr (Leaf (Num 42)) \<and>
   read_var abc_state ''a/x'' = Inl PathNotFound"
proof (intro conjI impI)
  show "re_split var \<noteq> []" by (simp add: re_split_def split_acc_not_Nil)
  show "join_slash (re_split var) = var" by (simp add: re_split_def join_split_acc)
  show "\<forall>seg \<in> set (re_split var). CHR ''/'' \<notin> set seg"
    using split_acc_no_slash [of "[]"] by (auto simp: re_split_def)
  show "read_var st var = get_by_path st (re_split var)" by (simp add: read_var_def)
  show "read_var st var =
      (case get_by_path st pre of Inl e \<Rightarrow> Inl e | Inr v \<Rightarrow> get_by_path v post)"
    if "re_split var = pre @ post"
    using that by (simp add: read_var_def get_by_path_append)
  show "read_var st var = Inl PathNotFound"
    if "re_split var = pre @ k # post \<and> get_by_path st pre = Inr v \<and>
      (\<forall>kvs. v = Dict kvs \<longrightarrow> map_of kvs k = None)"
    using that by (simp add: read_var_def get_by_path_append get_by_path_missing)
  show "e = PathNotFound" if "read_var st var = Inl e"
    using that by (simp add: read_var_def get_by_path_error)
  show "read_var abc_state ''a/b/c'' = Inr (Leaf (Num 42))"
    by (simp add: read_var_def re_split_def abc_state_def)
  show "read_var abc_state ''a/x'' = Inl PathNotFound"
    by (simp add: read_var_def re_split_def abc_state_def)
qed

theorem read_var_resolves_path_witness:
  "re_split ''a/x'' = [''a''] @ ''x'' # [] \<and>
   get_by_path abc_state [''a''] = Inr (Dict [(''b'', Dict [(''c'', Leaf (Num 42))])]) \<and>
   map_of [(''b'', Dict [(''c'', Leaf (Num 42))])] ''x'' = None \<and>
   read_var abc_state ''a/x'' = Inl PathNotFound \<and>
   re_split ''a/b/c'' = [''a'', ''b''] @ [''c''] \<and>
   read_var abc_state ''a/b/c'' =
     (case get_by_path abc_state [''a'', ''b''] of Inl e \<Rightarrow> Inl e | Inr v \<Rightarrow> get_by_path v [''c''])"
proof -
  let ?v = "Dict [(''b'', Dict [(''c'', Leaf (Num 42))])]"
  have h1: "re_split ''a/x'' = [''a''] @ ''x'' # []" by (simp add: re_split_def)
  have h2: "get_by_path abc_state [''a''] = Inr ?v" by (simp add: abc_state_def)
  have h3: "\<forall>kvs. ?v = Dict kvs \<longrightarrow> map_of kvs ''x'' = None" by simp
  have h4: "re_split ''a/b/c'' = [''a'', ''b''] @ [''c'']" by (simp add: re_split_def)
  from read_var_resolves_path [of "''a/x''" abc_state "[''a'']" "[]" "''x''" ?v PathNotFound]
    h1 h2 h3
  have a: "read_var abc_state ''a/x'' = Inl PathNotFound" by blast
  from read_var_resolves_path [of "''a/b/c''" abc_state "[''a'', ''b'']" "[''c'']"] h4
  have b: "read_var abc_state ''a/b/c'' =
     (case get_by_path abc_state [''a'', ''b''] of Inl e \<Rightarrow> Inl e | Inr v \<Rightarrow> get_by_path v [''c''])"
    by blast
  have h5: "map_of [(''b'', Dict [(''c'', Leaf (Num 42))])] ''x'' = None" by simp
  from h1 h2 h4 h5 a b show ?thesis by blast
qed

subsection \<open>Short trajectories\<close>

text \<open>
  Claim C1, in the form that holds of the code. render has no check of the number of
  episodes and no error for it. On the empty trajectory, when the timeline is not empty and
  all its timestamps are within the bounds of pandas, render succeeds: it writes an empty
  GeoJSON array and the HTML document, whose start time is the time of the call. When a
  timestamp of the timeline is out of bounds, render fails with the error of pandas and
  writes nothing.
\<close>

theorem empty_trajectory_is_rendered:
  "(timestamps g start = Inr ts \<and>
    0 < num_episodes (config g) * num_steps_per_episode (config g) \<longrightarrow>
      fst (render g start [] fs) = Inr () \<and>
      snd (render g start [] fs) (geodata_path g) = Some (GeoJSON []) \<and>
      snd (render g start [] fs) (geoplot_path g) =
        Some (Html \<lparr>accessToken = cesium_token g, startTime = start, stopTime = last ts,
               data = [], visualType = visualization_type g\<rparr>)) \<and>
   (timestamps g start = Inl e \<longrightarrow> render g start [] fs = (Inl e, fs))"
proof (intro conjI impI)
  assume a: "timestamps g start = Inr ts \<and>
    0 < num_episodes (config g) * num_steps_per_episode (config g)"
  then have tl: "timestamps g start = Inr ts" by simp
  from a timestamps_Nil [OF tl] have ne: "ts \<noteq> []" by simp
  note built = render_built [OF read_trajectory_Nil tl encode_no_coords, of fs]
  from built(1) ne show "fst (render g start [] fs) = Inr ()" by simp
  from built(2) show "snd (render g start [] fs) (geodata_path g) = Some (GeoJSON [])" .
  from built(4) [OF ne] hd_timestamps [OF tl ne]
  show "snd (render g start [] fs) (geoplot_path g) =
        Some (Html \<lparr>accessToken = cesium_token g, startTime = start, stopTime = last ts,
               data = [], visualType = visualization_type g\<rparr>)"
    by simp
next
  assume "timestamps g start = Inl e"
  then show "render g start [] fs = (Inl e, fs)"
    by (simp add: render_def read_trajectory_Nil)
qed

theorem empty_trajectory_is_rendered_witness:
  "timestamps (sample_plot 1 1) 0 = Inr [0] \<and>
   0 < num_episodes (config (sample_plot 1 1)) * num_steps_per_episode (config (sample_plot 1 1)) \<and>
   fst (render (sample_plot 1 1) 0 [] Map.empty) = Inr () \<and>
   snd (render (sample_plot 1 1) 0 [] Map.empty) (geodata_path (sample_plot 1 1)) =
     Some (GeoJSON [])"
proof -
  have h: "timestamps (sample_plot 1 1) 0 = Inr [0] \<and>
      0 < num_episodes (config (sample_plot 1 1)) *
          num_steps_per_episode (config (sample_plot 1 1))"
    by (simp add: timestamps_1_1) (simp add: sample_plot_def)
  from empty_trajectory_is_rendered [of "sample_plot 1 1" 0 "[0]" Map.empty] h
  show ?thesis by blast
qed

text \<open>
  Claim C1 as stated fails: on a trajectory of one episode render does not fail, and it
  writes the GeoJSON file.
\<close>

theorem one_episode_counterexample:
  "fst (render (sample_plot 1 1) 0 one_episode Map.empty) = Inr () \<and>
   snd (render (sample_plot 1 1) 0 one_episode Map.empty) (geodata_path (sample_plot 1 1)) =
     Some (GeoJSON [])"
  using render_built(1,2) [OF read_one_episode timestamps_1_1 encode_no_coords, of Map.empty]
  by simp

subsection \<open>Lengths that disagree\<close>

text \<open>
  Claim C8, in the form that holds of the code. render compares no lengths. When every
  resolved coordinate is a list of at least two components and the timeline is within the
  bounds of pandas: if some accumulated feature list that is paired with a timestamp is
  shorter than the coordinate list, render fails with \<open>IndexError\<close>, raised by
  \<^verbatim>\<open>value_list[i]\<close>, and writes nothing; if every such list is at least as long as the
  coordinate list, render writes the GeoJSON file with one collection per coordinate, in
  which feature \<open>j\<close> of entity \<open>i\<close> carries value \<open>i\<close> of the \<open>j\<close>-th feature list. The values
  beyond the coordinate list are ignored: the array written is the one encoded from the
  feature lists cut to the length of the coordinate list.
\<close>

theorem short_value_list_is_index_error:
  assumes rd: "read_trajectory g traj = Inr (Arr cs, vals)"
    and pairs: "\<forall>c \<in> set cs. \<exists>xs. c = Arr xs \<and> 2 \<le> length xs"
    and tl: "timestamps g start = Inr ts"
  shows "((\<exists>j. j < length ts \<and> j < length vals \<and> length (vals ! j) < length cs) \<longrightarrow>
          render g start traj fs = (Inl IndexError, fs)) \<and>
         ((\<forall>j. j < length ts \<longrightarrow> j < length vals \<longrightarrow> length cs \<le> length (vals ! j)) \<longrightarrow>
          (\<exists>gs. snd (render g start traj fs) (geodata_path g) = Some (GeoJSON gs) \<and>
             length gs = length cs \<and>
             encode (Arr cs) ts (map (take (length cs)) vals) = Inr gs \<and>
             (\<forall>i j. i < length cs \<longrightarrow> j < length ts \<longrightarrow> j < length vals \<longrightarrow>
                j < length (features (gs ! i)) \<and>
                val (features (gs ! i) ! j) = vals ! j ! i)))"
proof (intro conjI impI)
  assume "\<exists>j. j < length ts \<and> j < length vals \<and> length (vals ! j) < length cs"
  then have "\<not> (\<forall>j. j < length ts \<longrightarrow> j < length vals \<longrightarrow> length cs \<le> length (vals ! j))"
    by (auto simp: not_le)
  with encode_pairs [OF pairs, of ts vals]
  have "encode (Arr cs) ts vals = Inl IndexError" by simp
  then show "render g start traj fs = (Inl IndexError, fs)"
    by (simp add: render_def rd tl)
next
  assume "\<forall>j. j < length ts \<longrightarrow> j < length vals \<longrightarrow> length cs \<le> length (vals ! j)"
  with encode_pairs [OF pairs, of ts vals]
  obtain gs where enc: "encode (Arr cs) ts vals = Inr gs" and len: "length gs = length cs"
    by auto
  have wr: "snd (render g start traj fs) (geodata_path g) = Some (GeoJSON gs)"
    using rd tl enc by (rule render_built(2))
  have cut: "encode (Arr cs) ts (map (take (length cs)) vals) = Inr gs"
    by (simp add: encode_take enc)
  have vs: "\<forall>i j. i < length cs \<longrightarrow> j < length ts \<longrightarrow> j < length vals \<longrightarrow>
      j < length (features (gs ! i)) \<and> val (features (gs ! i) ! j) = vals ! j ! i"
    using encode_values [OF enc] len by simp
  from wr len cut vs
  show "\<exists>gs. snd (render g start traj fs) (geodata_path g) = Some (GeoJSON gs) \<and>
      length gs = length cs \<and>
      encode (Arr cs) ts (map (take (length cs)) vals) = Inr gs \<and>
      (\<forall>i j. i < length cs \<longrightarrow> j < length ts \<longrightarrow> j < length vals \<longrightarrow>
         j < length (features (gs ! i)) \<and> val (features (gs ! i) ! j) = vals ! j ! i)"
    by blast
qed

theorem short_value_list_is_index_error_witness:
  "read_trajectory (sample_plot 2 1) short_values_episodes =
     Inr (Arr [Arr [Num 1, Num 2], Arr [Num 3, Num 4]], [[10]]) \<and>
   timestamps (sample_plot 2 1) 0 = Inr [0, 3600000000000] \<and>
   length ([[10::real]] ! 0) < length [Arr [Num 1, Num 2], Arr [Num 3, Num 4]] \<and>
   render (sample_plot 2 1) 0 short_values_episodes Map.empty = (Inl IndexError, Map.empty) \<and>
   read_trajectory (sample_plot 2 1) one_entity_episodes =
     Inr (Arr [Arr [Num 1, Num 2]], [[10, 20]]) \<and>
   (\<exists>gs. snd (render (sample_plot 2 1) 0 one_entity_episodes Map.empty)
           (geodata_path (sample_plot 2 1)) = Some (GeoJSON gs) \<and>
         encode (Arr [Arr [Num 1, Num 2]]) [0, 3600000000000] (map (take 1) [[10, 20]]) =
           Inr gs \<and>
         val (features (gs ! 0) ! 0) = 10)"
proof -
  let ?cs = "[Arr [Num 1, Num 2], Arr [Num 3, Num 4]]"
  let ?ts = "[0, 3600000000000 :: int]"
  have h1: "read_trajectory (sample_plot 2 1) short_values_episodes = Inr (Arr ?cs, [[10]])"
    by (simp add: read_short_values two_coords_def)
  have h2: "\<forall>c \<in> set ?cs. \<exists>xs. c = Arr xs \<and> 2 \<le> length xs" by simp
  have h3: "length ([[10::real]] ! 0) < length ?cs" by simp
  then have h4: "\<exists>j. j < length ?ts \<and> j < length [[10::real]] \<and>
    length ([[10::real]] ! j) < length ?cs"
    by (intro exI [of _ 0]) simp
  from short_value_list_is_index_error [OF h1 h2 timestamps_2_1, of Map.empty] h4
  have a: "render (sample_plot 2 1) 0 short_values_episodes Map.empty =
      (Inl IndexError, Map.empty)"
    by blast
  have k2: "\<forall>c \<in> set [Arr [Num 1, Num 2]]. \<exists>xs. c = Arr xs \<and> 2 \<le> length xs" by simp
  have k3: "\<forall>j. j < length ?ts \<longrightarrow> j < length [[10, 20::real]] \<longrightarrow>
      length [Arr [Num 1, Num 2]] \<le> length ([[10, 20::real]] ! j)"
    by simp
  from short_value_list_is_index_error [OF read_one_entity k2 timestamps_2_1, of Map.empty] k3
  obtain gs where
    "snd (render (sample_plot 2 1) 0 one_entity_episodes Map.empty)
       (geodata_path (sample_plot 2 1)) = Some (GeoJSON gs)"
    "encode (Arr [Arr [Num 1, Num 2]]) ?ts (map (take (length [Arr [Num 1, Num 2]])) [[10, 20]]) =
       Inr gs"
    "\<forall>i j. i < length [Arr [Num 1, Num 2]] \<longrightarrow> j < length ?ts \<longrightarrow>
       j < length [[10, 20::real]] \<longrightarrow>
       j < length (features (gs ! i)) \<and> val (features (gs ! i) ! j) = [[10, 20]] ! j ! i"
    by blast
  then have b: "\<exists>gs. snd (render (sample_plot 2 1) 0 one_entity_episodes Map.empty)
           (geodata_path (sample_plot 2 1)) = Some (GeoJSON gs) \<and>
         encode (Arr [Arr [Num 1, Num 2]]) [0, 3600000000000] (map (take 1) [[10, 20]]) =
           Inr gs \<and>
         val (features (gs ! 0) ! 0) = 10"
    by (intro exI [of _ gs]) simp
  from h1 h3 a b timestamps_2_1 read_one_entity show ?thesis by blast
qed

text \<open>
  Claim C8 as stated fails: with one coordinate and two feature values per episode the
  lengths disagree and render succeeds.
\<close>

theorem longer_value_list_counterexample:
  "read_trajectory (sample_plot 2 1) one_entity_episodes =
     Inr (Arr [Arr [Num 1, Num 2]], [[10, 20]]) \<and>
   fst (render (sample_plot 2 1) 0 one_entity_episodes Map.empty) = Inr () \<and>
   snd (render (sample_plot 2 1) 0 one_entity_episodes Map.empty) (geodata_path (sample_plot 2 1)) =
     Some (GeoJSON [FeatureCollection [\<lparr>coordinates = [Num 2, Num 1], val = 10, time = 0\<rparr>]])"
  using render_built(1,2) [OF read_one_entity timestamps_2_1 encode_one_entity, of Map.empty]
  by (simp add: read_one_entity)

subsection \<open>Files after a failure\<close>




subsection \<open>The last episode is not read\<close>

text \<open>
  The loop bound \<^verbatim>\<open>len(state_trajectory) - 1\<close> leaves the last episode out, against the
  comment on line 252, which has the loop run over every episode: what the first loop
  returns does not depend on the last episode at all.
\<close>

lemma read_trajectory_skips_last:
  "read_trajectory g (eps @ [ep]) =
     read_episodes (entity_position g) (entity_property g) eps (Arr [], [])"
  by (simp add: read_trajectory_def)

lemma read_episodes_length:
  "read_episodes p q eps (c0, vs0) = Inr (c, vs) \<Longrightarrow> length vs = length vs0 + length eps"
  by (induction eps arbitrary: c0 vs0) (auto split: if_splits sum.splits)

lemma read_trajectory_values_length:
  "read_trajectory g traj = Inr (coords, vals) \<Longrightarrow> length vals = length traj - 1"
  by (auto simp: read_trajectory_def dest: read_episodes_length)

text \<open>
  Claim C2. The scenario of the claim: two episodes with feature values \<open>[10, 20]\<close> and
  \<open>[30, 40]\<close>. render writes two collections of one feature each; entity 0 has value 10 only,
  where the claim has \<open>[10, 30]\<close>.
\<close>

theorem two_episodes_give_one_feature:
  "fst (render (sample_plot 2 1) 0 two_episodes Map.empty) = Inr () \<and>
   snd (render (sample_plot 2 1) 0 two_episodes Map.empty) (geodata_path (sample_plot 2 1)) =
     Some (GeoJSON
       [FeatureCollection [\<lparr>coordinates = [Num 2, Num 1], val = 10, time = 0\<rparr>],
        FeatureCollection [\<lparr>coordinates = [Num 4, Num 3], val = 20, time = 0\<rparr>]])"
  by (simp add: ok_two_episodes written_two_episodes)

text \<open>
  Claim C3. Three episodes and two entities: render writes two collections of two features
  each, where the claim has three features, one per episode.
\<close>

theorem three_episodes_give_two_features:
  "length three_episodes = 3 \<and>
   snd (render (sample_plot 3 1) 0 three_episodes Map.empty) (geodata_path (sample_plot 3 1)) =
     Some (GeoJSON (three_out 0)) \<and>
   length (three_out 0) = 2 \<and>
   length (features (three_out 0 ! 0)) = 2 \<and>
   length (features (three_out 0 ! 1)) = 2"
  by (simp add: written_three_episodes) (simp add: three_episodes_def two_episodes_def three_out_def)

text \<open>
  Claim C5. Two episodes, the entities at \<open>[[5, 6], [7, 8]]\<close> in the last one: the coordinates
  render uses are those of the first episode, \<open>[[1, 2], [3, 4]]\<close>, where the claim has those of
  the last episode.
\<close>

theorem last_episode_coordinates_unused:
  "read_var (last (last moved_episodes)) (entity_position (sample_plot 2 1)) =
     Inr (Leaf (Arr [Arr [Num 5, Num 6], Arr [Num 7, Num 8]])) \<and>
   read_trajectory (sample_plot 2 1) moved_episodes = Inr (two_coords, [[10, 20]]) \<and>
   snd (render (sample_plot 2 1) 0 moved_episodes Map.empty) (geodata_path (sample_plot 2 1)) =
     Some (GeoJSON
       [FeatureCollection [\<lparr>coordinates = [Num 2, Num 1], val = 10, time = 0\<rparr>],
        FeatureCollection [\<lparr>coordinates = [Num 4, Num 3], val = 20, time = 0\<rparr>]])"
proof -
  have a: "read_var (last (last moved_episodes)) (entity_position (sample_plot 2 1)) =
     Inr (Leaf (Arr [Arr [Num 5, Num 6], Arr [Num 7, Num 8]]))"
    by (simp add: moved_episodes_def sample_plot_def read_var_coordinates)
  from render_built(2) [OF read_moved timestamps_2_1 encode_two_coords, of Map.empty] a
  show ?thesis by (simp add: read_moved)
qed

end
